theory Spec2Isabelle
  imports Complex_Main
begin

section \<open>Data models (app.py, lines 23-40)\<close>

text \<open>
  Values that travel inside task dictionaries (\<^verbatim>\<open>Dict[str, Any]\<close>): the JSON shapes
  \<^verbatim>\<open>None\<close>, \<^verbatim>\<open>str\<close>, \<^verbatim>\<open>list\<close> and \<^verbatim>\<open>dict\<close>. Keyword arguments and JSON objects are
  association lists read with \<open>map_of\<close>.
\<close>

datatype pyval = PNone | PStr string | PList "pyval list" | PDict "(string \<times> pyval) list"

type_synonym kwargs = "(string \<times> pyval) list"

text \<open>
  Both pydantic models have the fields \<^verbatim>\<open>id\<close> and \<^verbatim>\<open>created_at\<close>; the selectors carry a
  suffix to keep them apart (and away from the identity function \<open>id\<close>).
\<close>

record Document =
  id_doc :: string
  content :: string
  metadata :: kwargs
  created_at_doc :: string

record Context =
  id_ctx :: string
  name :: string
  documents :: "string list"
  description :: "string option"
  created_at_ctx :: string
  updated_at :: string

text \<open>
  A task is a dictionary. The program reads the keys \<^verbatim>\<open>type\<close> and \<^verbatim>\<open>data\<close> with
  \<^verbatim>\<open>task.get\<close> (\<open>None\<close> when the key is missing) and writes \<^verbatim>\<open>context_id\<close> and
  \<^verbatim>\<open>error\<close>.
\<close>

record task =
  type :: "string option"
  data :: "kwargs option"
  context_id :: "string option"
  error :: "string option"

record TaskQueue =
  tasks :: "task list"
  failed_tasks :: "task list"

text \<open>
  Instants are the readings of \<^verbatim>\<open>time.time()\<close>, taken as real numbers of seconds;
  the reading is an argument of every operation that takes one.
\<close>

record RateLimiter =
  requests_per_minute :: int
  request_times :: "real list"

text \<open>The module's globals: \<^verbatim>\<open>documents_db\<close>, \<^verbatim>\<open>contexts_db\<close>, \<^verbatim>\<open>task_queue\<close>, \<^verbatim>\<open>rate_limiter\<close>.\<close>

record state =
  documents_db :: "string \<rightharpoonup> Document"
  contexts_db :: "string \<rightharpoonup> Context"
  task_queue :: TaskQueue
  rate_limiter :: RateLimiter

datatype exn = IndexError | TypeError | ValidationError string

datatype http_error = HTTPException nat string

text \<open>
  What one pass of the processor reads from its environment: the clock of the rate
  limiter, and the values the default factories would produce (\<^verbatim>\<open>uuid.uuid4()\<close>, and
  one \<^verbatim>\<open>datetime.now().isoformat()\<close> for each of \<^verbatim>\<open>created_at\<close> and \<^verbatim>\<open>updated_at\<close>).
\<close>

record env =
  time_time :: real
  uuid4 :: string
  now_created :: string
  now_updated :: string

section \<open>RateLimiter (lines 42-58)\<close>

definition RateLimiter_init :: "int \<Rightarrow> RateLimiter" where
  "RateLimiter_init rpm = \<lparr>requests_per_minute = rpm, request_times = []\<rparr>"

text \<open>The result is the returned flag (\<open>True\<close>: rate limited) and the limiter afterwards.\<close>

definition is_rate_limited :: "real \<Rightarrow> RateLimiter \<Rightarrow> bool \<times> RateLimiter" where
  "is_rate_limited current_time rl =
     (let kept = filter (\<lambda>t. current_time - t < 60) (request_times rl) in
      if int (length kept) \<ge> requests_per_minute rl
      then (True, rl\<lparr>request_times := kept\<rparr>)
      else (False, rl\<lparr>request_times := kept @ [current_time]\<rparr>))"

text \<open>Successive calls, at the given clock readings, in order.\<close>

fun admit_calls :: "real list \<Rightarrow> RateLimiter \<Rightarrow> bool list \<times> RateLimiter" where
  "admit_calls [] rl = ([], rl)"
| "admit_calls (t # ts) rl =
     (case is_rate_limited t rl of (b, rl1) \<Rightarrow>
        (case admit_calls ts rl1 of (bs, rl2) \<Rightarrow> (b # bs, rl2)))"

text \<open>The window as it should look right after a call made at instant \<open>now\<close>.\<close>

definition window_ok :: "real \<Rightarrow> RateLimiter \<Rightarrow> bool" where
  "window_ok now rl \<longleftrightarrow>
     int (length (request_times rl)) \<le> requests_per_minute rl \<and>
     list_all (\<lambda>t. now - t < 60 \<and> t \<le> now) (request_times rl) \<and>
     sorted (request_times rl)"

section \<open>Construction of the pydantic models\<close>

text \<open>
  The field validators accept a value of the declared type; conversions that the
  validation library may apply to values of other types are not part of the model.
\<close>

fun str_validator :: "pyval \<Rightarrow> string option" where
  "str_validator (PStr s) = Some s"
| "str_validator _ = None"

fun dict_validator :: "pyval \<Rightarrow> kwargs option" where
  "dict_validator (PDict d) = Some d"
| "dict_validator _ = None"

fun optional_str_validator :: "pyval \<Rightarrow> string option option" where
  "optional_str_validator PNone = Some None"
| "optional_str_validator (PStr s) = Some (Some s)"
| "optional_str_validator _ = None"

fun list_str_validator :: "pyval \<Rightarrow> string list option" where
  "list_str_validator (PList vs) =
     (if list_all (\<lambda>v. str_validator v \<noteq> None) vs
      then Some (map (\<lambda>v. the (str_validator v)) vs) else None)"
| "list_str_validator _ = None"

text \<open>
  One field of a model: a missing key takes the default (\<open>None\<close>: the field is
  required), a present key is validated. The result \<open>None\<close> is a validation error.
\<close>

definition field :: "(pyval \<Rightarrow> 'a option) \<Rightarrow> 'a option \<Rightarrow> kwargs \<Rightarrow> string \<Rightarrow> 'a option" where
  "field validate dflt kw k = (case map_of kw k of None \<Rightarrow> dflt | Some v \<Rightarrow> validate v)"

definition Document_init :: "env \<Rightarrow> kwargs \<Rightarrow> exn + Document" where
  "Document_init e kw =
     (case (field str_validator (Some (uuid4 e)) kw ''id'',
            field str_validator None kw ''content'',
            field dict_validator (Some []) kw ''metadata'',
            field str_validator (Some (now_created e)) kw ''created_at'') of
        (Some i, Some c, Some m, Some ca) \<Rightarrow>
           Inr \<lparr>id_doc = i, content = c, metadata = m, created_at_doc = ca\<rparr>
      | _ \<Rightarrow> Inl (ValidationError ''Document''))"

definition Context_init :: "env \<Rightarrow> kwargs \<Rightarrow> exn + Context" where
  "Context_init e kw =
     (case (field str_validator (Some (uuid4 e)) kw ''id'',
            field str_validator None kw ''name'',
            field list_str_validator (Some []) kw ''documents'',
            field optional_str_validator (Some None) kw ''description'',
            field str_validator (Some (now_created e)) kw ''created_at'',
            field str_validator (Some (now_updated e)) kw ''updated_at'') of
        (Some i, Some n, Some ds, Some de, Some ca, Some ua) \<Rightarrow>
           Inr \<lparr>id_ctx = i, name = n, documents = ds, description = de,
                created_at_ctx = ca, updated_at = ua\<rparr>
      | _ \<Rightarrow> Inl (ValidationError ''Context''))"

text \<open>\<^verbatim>\<open>Model(**task.get("data"))\<close>: unpacking \<^verbatim>\<open>None\<close> raises \<^verbatim>\<open>TypeError\<close>.\<close>

definition Document_new :: "env \<Rightarrow> kwargs option \<Rightarrow> exn + Document" where
  "Document_new e d = (case d of None \<Rightarrow> Inl TypeError | Some kw \<Rightarrow> Document_init e kw)"

definition Context_new :: "env \<Rightarrow> kwargs option \<Rightarrow> exn + Context" where
  "Context_new e d = (case d of None \<Rightarrow> Inl TypeError | Some kw \<Rightarrow> Context_init e kw)"

text \<open>\<^verbatim>\<open>str(e)\<close>; the wording stands for the library's, which is never empty.\<close>

fun str_exn :: "exn \<Rightarrow> string" where
  "str_exn IndexError = ''pop from empty list''"
| "str_exn TypeError = ''argument after ** must be a mapping, not NoneType''"
| "str_exn (ValidationError m) = ''validation error for '' @ m"

section \<open>The task processor (lines 85-110)\<close>

text \<open>The body of the \<^verbatim>\<open>try\<close> block: dispatch on the type; an exception is \<open>Inl\<close>.\<close>

definition run_task :: "env \<Rightarrow> task \<Rightarrow> state \<Rightarrow> exn + state" where
  "run_task e t s =
     (let task_type = type t in
      if task_type = Some ''create_document'' then
        (case Document_new e (data t) of
           Inl x \<Rightarrow> Inl x
         | Inr document \<Rightarrow>
             Inr (s\<lparr>documents_db := (documents_db s)(id_doc document \<mapsto> document)\<rparr>))
      else if task_type = Some ''create_context'' then
        (case Context_new e (data t) of
           Inl x \<Rightarrow> Inl x
         | Inr context \<Rightarrow>
             Inr (s\<lparr>contexts_db := (contexts_db s)(id_ctx context \<mapsto> context)\<rparr>))
      else Inr s)"

text \<open>
  One apply step: \<^verbatim>\<open>tasks.pop(0)\<close>, the \<^verbatim>\<open>try\<close> block and its handler. The pop is
  outside the \<^verbatim>\<open>try\<close>, so on an empty list its \<^verbatim>\<open>IndexError\<close> would escape.
\<close>

definition apply_step :: "env \<Rightarrow> state \<Rightarrow> exn + state" where
  "apply_step e s =
     (case tasks (task_queue s) of
        [] \<Rightarrow> Inl IndexError
      | t # rest \<Rightarrow>
          (let s1 = s\<lparr>task_queue := (task_queue s)\<lparr>tasks := rest\<rparr>\<rparr> in
           case run_task e t s1 of
             Inr s2 \<Rightarrow> Inr s2
           | Inl x \<Rightarrow>
               Inr (s1\<lparr>task_queue := (task_queue s1)
                     \<lparr>failed_tasks := failed_tasks (task_queue s1) @ [t\<lparr>error := Some (str_exn x)\<rparr>]\<rparr>\<rparr>)))"

text \<open>
  One pass through the body of \<^verbatim>\<open>while True\<close>. The two sleeps only let time pass;
  the next pass comes with its own environment.
\<close>

definition process_iteration :: "env \<Rightarrow> state \<Rightarrow> exn + state" where
  "process_iteration e s =
     (if tasks (task_queue s) \<noteq> [] then
        (case is_rate_limited (time_time e) (rate_limiter s) of
           (limited, rl) \<Rightarrow>
             if limited then Inr (s\<lparr>rate_limiter := rl\<rparr>)
             else apply_step e (s\<lparr>rate_limiter := rl\<rparr>))
      else Inr s)"

text \<open>
  The loop never returns; its first passes, one for each environment of the list,
  are run here. An exception that escapes a pass ends the loop.
\<close>

fun process_task_queue :: "env list \<Rightarrow> state \<Rightarrow> exn + state" where
  "process_task_queue [] s = Inr s"
| "process_task_queue (e # es) s =
     (case process_iteration e s of
        Inl x \<Rightarrow> Inl x
      | Inr s1 \<Rightarrow> process_task_queue es s1)"

section \<open>Endpoints (lines 116-214)\<close>

text \<open>
  Every handler takes the globals and returns its response, or the HTTP error it
  raises, together with the globals afterwards.
\<close>

definition Document_dict :: "Document \<Rightarrow> kwargs" where
  "Document_dict d =
     [(''id'', PStr (id_doc d)), (''content'', PStr (content d)),
      (''metadata'', PDict (metadata d)), (''created_at'', PStr (created_at_doc d))]"

definition Context_dict :: "Context \<Rightarrow> kwargs" where
  "Context_dict c =
     [(''id'', PStr (id_ctx c)), (''name'', PStr (name c)),
      (''documents'', PList (map PStr (documents c))),
      (''description'', (case description c of None \<Rightarrow> PNone | Some d \<Rightarrow> PStr d)),
      (''created_at'', PStr (created_at_ctx c)), (''updated_at'', PStr (updated_at c))]"

definition enqueue :: "task \<Rightarrow> state \<Rightarrow> state" where
  "enqueue t s = s\<lparr>task_queue := (task_queue s)\<lparr>tasks := tasks (task_queue s) @ [t]\<rparr>\<rparr>"

text \<open>The dictionaries \<^verbatim>\<open>{"type": ..., "data": ...}\<close> that the two POST handlers enqueue.\<close>

definition create_document_task :: "kwargs \<Rightarrow> task" where
  "create_document_task kw =
     \<lparr>type = Some ''create_document'', data = Some kw, context_id = None, error = None\<rparr>"

definition create_context_task :: "kwargs \<Rightarrow> task" where
  "create_context_task kw =
     \<lparr>type = Some ''create_context'', data = Some kw, context_id = None, error = None\<rparr>"

definition create_document :: "Document \<Rightarrow> state \<Rightarrow> (http_error + Document) \<times> state" where
  "create_document document s =
     (Inr document, enqueue (create_document_task (Document_dict document)) s)"

definition create_context :: "Context \<Rightarrow> state \<Rightarrow> (http_error + Context) \<times> state" where
  "create_context context s =
     (Inr context, enqueue (create_context_task (Context_dict context)) s)"

definition get_document :: "string \<Rightarrow> state \<Rightarrow> (http_error + Document) \<times> state" where
  "get_document document_id s =
     (case documents_db s document_id of
        None \<Rightarrow> (Inl (HTTPException 404 ''Document not found''), s)
      | Some d \<Rightarrow> (Inr d, s))"

definition get_context :: "string \<Rightarrow> state \<Rightarrow> (http_error + Context) \<times> state" where
  "get_context cid s =
     (case contexts_db s cid of
        None \<Rightarrow> (Inl (HTTPException 404 ''Context not found''), s)
      | Some c \<Rightarrow> (Inr c, s))"

text \<open>
  The body of the loop of \<^verbatim>\<open>delete_document\<close> on one context: \<^verbatim>\<open>list.remove\<close> takes
  out the first occurrence, \<open>now\<close> is the reading of \<^verbatim>\<open>datetime.now().isoformat()\<close>.
\<close>

definition remove_from_context :: "string \<Rightarrow> string \<Rightarrow> Context \<Rightarrow> Context" where
  "remove_from_context document_id now context =
     (if document_id \<in> set (documents context)
      then context\<lparr>documents := remove1 document_id (documents context), updated_at := now\<rparr>
      else context)"

text \<open>
  The loop visits every context once and touches only the context it visits, so the
  order of the visits does not show; \<open>now k\<close> is the clock reading during the visit of
  the context stored under \<open>k\<close>.
\<close>

definition delete_document ::
  "string \<Rightarrow> (string \<Rightarrow> string) \<Rightarrow> state \<Rightarrow> (http_error + string) \<times> state" where
  "delete_document document_id now s =
     (if documents_db s document_id = None
      then (Inl (HTTPException 404 ''Document not found''), s)
      else (Inr ''Document deleted successfully'',
            s\<lparr>contexts_db :=
                 (\<lambda>k. map_option (remove_from_context document_id (now k)) (contexts_db s k)),
              documents_db := (documents_db s)(document_id := None)\<rparr>))"

text \<open>
  The validation loop of \<^verbatim>\<open>update_context\<close>. A Python \<^verbatim>\<open>for\<close> over a list keeps an
  index \<open>i\<close> into the list object and stops when the index reaches the current length;
  the body removes from that same list. \<open>failed\<close> is \<^verbatim>\<open>task_queue.failed_tasks\<close>.
\<close>

definition validation_failure :: "string \<Rightarrow> string \<Rightarrow> task" where
  "validation_failure cid doc_id =
     \<lparr>type = Some ''update_context'', data = None, context_id = Some cid,
      error = Some (''Document '' @ doc_id @ '' does not exist'')\<rparr>"

function validate_documents ::
  "(string \<rightharpoonup> Document) \<Rightarrow> string \<Rightarrow> nat \<Rightarrow> string list \<Rightarrow> task list
     \<Rightarrow> string list \<times> task list" where
  "validate_documents db cid i docs failed =
     (if i < length docs then
        (let doc_id = docs ! i in
         if db doc_id = None
         then validate_documents db cid (Suc i) (remove1 doc_id docs)
                (failed @ [validation_failure cid doc_id])
         else validate_documents db cid (Suc i) docs failed)
      else (docs, failed))"
  by pat_completeness auto
termination
  by (relation "measure (\<lambda>(db, cid, i, docs, failed). length docs - i)")
     (auto simp: length_remove1)

declare validate_documents.simps [simp del]

definition update_context ::
  "string \<Rightarrow> Context \<Rightarrow> string \<Rightarrow> state \<Rightarrow> (http_error + Context) \<times> state" where
  "update_context cid updated_context now s =
     (if contexts_db s cid = None
      then (Inl (HTTPException 404 ''Context not found''), s)
      else
        (case validate_documents (documents_db s) cid 0 (documents updated_context)
                (failed_tasks (task_queue s)) of
           (docs, failed) \<Rightarrow>
             (let committed = updated_context\<lparr>documents := docs, updated_at := now\<rparr> in
              (Inr committed,
               s\<lparr>task_queue := (task_queue s)\<lparr>failed_tasks := failed\<rparr>,
                 contexts_db := (contexts_db s)(cid \<mapsto> committed)\<rparr>))))"

definition delete_context :: "string \<Rightarrow> state \<Rightarrow> (http_error + string) \<times> state" where
  "delete_context cid s =
     (if contexts_db s cid = None
      then (Inl (HTTPException 404 ''Context not found''), s)
      else (Inr ''Context deleted successfully'',
            s\<lparr>contexts_db := (contexts_db s)(cid := None)\<rparr>))"

record rendered_document =
  rendered_id :: string
  rendered_content :: string
  rendered_metadata :: kwargs

record context_content =
  content_context_id :: string
  content_name :: string
  content_documents :: "rendered_document list"

text \<open>The loop of \<^verbatim>\<open>get_context_content\<close>, appending to \<^verbatim>\<open>content\<close>.\<close>

fun render_documents ::
  "(string \<rightharpoonup> Document) \<Rightarrow> string list \<Rightarrow> rendered_document list \<Rightarrow> rendered_document list" where
  "render_documents db [] acc = acc"
| "render_documents db (doc_id # rest) acc =
     (case db doc_id of
        Some d \<Rightarrow>
          render_documents db rest
            (acc @ [\<lparr>rendered_id = doc_id, rendered_content = content d,
                     rendered_metadata = metadata d\<rparr>])
      | None \<Rightarrow> render_documents db rest acc)"

definition get_context_content ::
  "string \<Rightarrow> state \<Rightarrow> (http_error + context_content) \<times> state" where
  "get_context_content cid s =
     (case contexts_db s cid of
        None \<Rightarrow> (Inl (HTTPException 404 ''Context not found''), s)
      | Some context \<Rightarrow>
          (Inr \<lparr>content_context_id = cid, content_name = name context,
                content_documents = render_documents (documents_db s) (documents context) []\<rparr>,
           s))"

definition get_failed_tasks :: "state \<Rightarrow> task list \<times> state" where
  "get_failed_tasks s = (failed_tasks (task_queue s), s)"

text \<open>\<^verbatim>\<open>retry_failed_tasks\<close>; the response is the message, with the number it reports.\<close>

datatype retry_message = No_failed_tasks | Moved nat

definition retry_failed_tasks :: "state \<Rightarrow> retry_message \<times> state" where
  "retry_failed_tasks s =
     (if failed_tasks (task_queue s) = [] then (No_failed_tasks, s)
      else
        (let q = (task_queue s)\<lparr>tasks := tasks (task_queue s) @ failed_tasks (task_queue s)\<rparr>;
             q' = q\<lparr>failed_tasks := []\<rparr>
         in (Moved (length (tasks q')), s\<lparr>task_queue := q'\<rparr>)))"

section \<open>Initial globals and sample values\<close>

text \<open>Lines 61-64: empty stores, an empty queue, and the default limiter.\<close>

definition initial_state :: state where
  "initial_state =
     \<lparr>documents_db = Map.empty, contexts_db = Map.empty,
      task_queue = \<lparr>tasks = [], failed_tasks = []\<rparr>,
      rate_limiter = RateLimiter_init 60\<rparr>"

definition sample_document :: "string \<Rightarrow> Document" where
  "sample_document i =
     \<lparr>id_doc = i, content = ''text'', metadata = [], created_at_doc = ''t0''\<rparr>"

definition sample_context :: "string \<Rightarrow> string list \<Rightarrow> Context" where
  "sample_context i ds =
     \<lparr>id_ctx = i, name = ''n'', documents = ds, description = None,
      created_at_ctx = ''t0'', updated_at = ''t0''\<rparr>"

definition sample_env :: "real \<Rightarrow> env" where
  "sample_env t = \<lparr>time_time = t, uuid4 = ''u'', now_created = ''t1'', now_updated = ''t2''\<rparr>"

section \<open>RateLimiter: admission and the window\<close>

lemma is_rate_limited_keep:
  assumes "\<forall>r\<in>set (request_times rl). now - r < 60"
      and "int (length (request_times rl)) < requests_per_minute rl"
  shows "is_rate_limited now rl = (False, rl\<lparr>request_times := request_times rl @ [now]\<rparr>)"
proof -
  have "filter (\<lambda>r. now - r < 60) (request_times rl) = request_times rl"
    using assms(1) by (simp add: filter_id_conv)
  then show ?thesis using assms(2) by (simp add: is_rate_limited_def)
qed

lemma is_rate_limited_stale:
  assumes "\<forall>r\<in>set (request_times rl). \<not> now - r < 60"
  shows "is_rate_limited now rl =
           (if 0 < requests_per_minute rl then (False, rl\<lparr>request_times := [now]\<rparr>)
            else (True, rl\<lparr>request_times := []\<rparr>))"
proof -
  have "filter (\<lambda>r. now - r < 60) (request_times rl) = []"
    using assms by (simp add: filter_empty_conv)
  then show ?thesis by (simp add: is_rate_limited_def)
qed

lemma admit_calls_all:
  assumes "\<forall>r\<in>set (request_times rl) \<union> set ts. \<forall>a\<in>set ts. a - r < 60"
      and "int (length (request_times rl) + length ts) \<le> requests_per_minute rl"
  shows "admit_calls ts rl =
           (replicate (length ts) False, rl\<lparr>request_times := request_times rl @ ts\<rparr>)"
  using assms
proof (induction ts arbitrary: rl)
  case Nil
  then show ?case by simp
next
  case (Cons t ts)
  let ?rl1 = "rl\<lparr>request_times := request_times rl @ [t]\<rparr>"
  have step: "is_rate_limited t rl = (False, ?rl1)"
    using Cons.prems by (intro is_rate_limited_keep) auto
  have "admit_calls ts ?rl1 =
          (replicate (length ts) False, ?rl1\<lparr>request_times := request_times ?rl1 @ ts\<rparr>)"
    using Cons.prems by (intro Cons.IH) auto
  with step show ?case by simp
qed

text \<open>
  C5. Let the calls \<open>ts\<close>, followed by one more call \<open>t\<close>, lie within one 60-second
  window, and let everything recorded before be 60 seconds old or older at each of
  them (nothing recorded, for a new limiter; an earlier window that has fully
  elapsed, otherwise). If \<open>ts\<close> has at most \<open>requests_per_minute\<close> calls, every one of
  them is admitted and recorded. If it has exactly that many, the next call \<open>t\<close> is
  rejected and records nothing; if it has fewer, \<open>t\<close> is admitted and recorded. Every
  call, whatever its outcome, first drops the instants that are 60 seconds old or
  older and keeps the others in their order.
\<close>

theorem rate_limiter_window:
  assumes within: "\<forall>a\<in>set (ts @ [t]). \<forall>b\<in>set (ts @ [t]). a - b < 60"
      and stale: "\<forall>r\<in>set (request_times rl). \<forall>a\<in>set (ts @ [t]). \<not> a - r < 60"
      and le: "int (length ts) \<le> requests_per_minute rl"
  shows "fst (admit_calls ts rl) = replicate (length ts) False
       \<and> (ts \<noteq> [] \<longrightarrow> request_times (snd (admit_calls ts rl)) = ts)
       \<and> (int (length ts) = requests_per_minute rl \<longrightarrow>
            is_rate_limited t (snd (admit_calls ts rl)) =
              (True, (snd (admit_calls ts rl))\<lparr>request_times := ts\<rparr>))
       \<and> (int (length ts) < requests_per_minute rl \<longrightarrow>
            is_rate_limited t (snd (admit_calls ts rl)) =
              (False, (snd (admit_calls ts rl))\<lparr>request_times := ts @ [t]\<rparr>))
       \<and> request_times (snd (is_rate_limited now rl0)) =
            filter (\<lambda>r. now - r < 60) (request_times rl0) @
              (if fst (is_rate_limited now rl0) then [] else [now])"
proof -
  have purge: "request_times (snd (is_rate_limited now rl0)) =
            filter (\<lambda>r. now - r < 60) (request_times rl0) @
              (if fst (is_rate_limited now rl0) then [] else [now])"
    by (simp add: is_rate_limited_def Let_def)
  show ?thesis
  proof (cases ts)
    case Nil
    have "is_rate_limited t rl =
           (if 0 < requests_per_minute rl then (False, rl\<lparr>request_times := [t]\<rparr>)
            else (True, rl\<lparr>request_times := []\<rparr>))"
      using stale by (intro is_rate_limited_stale) simp
    with Nil le purge show ?thesis by simp
  next
    case (Cons t1 ts1)
    let ?rl1 = "rl\<lparr>request_times := [t1]\<rparr>"
    have first: "is_rate_limited t1 rl = (False, ?rl1)"
      using is_rate_limited_stale [of rl t1] stale le Cons by simp
    have rest: "admit_calls ts1 ?rl1 =
        (replicate (length ts1) False, ?rl1\<lparr>request_times := request_times ?rl1 @ ts1\<rparr>)"
      using within le Cons by (intro admit_calls_all) auto
    have run: "admit_calls ts rl = (replicate (length ts) False, rl\<lparr>request_times := ts\<rparr>)"
      using first rest Cons by simp
    have full: "filter (\<lambda>r. t - r < 60) ts = ts"
      using within by (simp add: filter_id_conv)
    have last: "is_rate_limited t (rl\<lparr>request_times := ts\<rparr>) =
        (if int (length ts) \<ge> requests_per_minute rl
         then (True, rl\<lparr>request_times := ts\<rparr>)
         else (False, rl\<lparr>request_times := ts @ [t]\<rparr>))"
      using full by (simp add: is_rate_limited_def)
    from run last purge le show ?thesis by simp
  qed
qed

theorem rate_limiter_window_witness:
  "fst (admit_calls [100, 130] \<lparr>requests_per_minute = 2, request_times = [0, 40]\<rparr>)
     = [False, False]
   \<and> request_times (snd (admit_calls [100, 130]
        \<lparr>requests_per_minute = 2, request_times = [0, 40]\<rparr>)) = [100, 130]
   \<and> fst (is_rate_limited 150 (snd (admit_calls [100, 130]
        \<lparr>requests_per_minute = 2, request_times = [0, 40]\<rparr>)))
   \<and> request_times (snd (is_rate_limited 150 (snd (admit_calls [100, 130]
        \<lparr>requests_per_minute = 2, request_times = [0, 40]\<rparr>)))) = [100, 130]"
  using rate_limiter_window [of "[100, 130]" 150
          "\<lparr>requests_per_minute = 2, request_times = [0, 40]\<rparr>" 150
          "\<lparr>requests_per_minute = 2, request_times = [0, 40]\<rparr>"]
  by simp

lemma window_ok_init: "0 \<le> rpm \<Longrightarrow> window_ok t0 (RateLimiter_init rpm)"
  by (simp add: window_ok_def RateLimiter_init_def)

lemma window_ok_step:
  assumes "window_ok prev rl" and "prev \<le> now"
  shows "window_ok now (snd (is_rate_limited now rl))"
proof -
  let ?kept = "filter (\<lambda>t. now - t < 60) (request_times rl)"
  have le_now: "\<forall>t\<in>set (request_times rl). t \<le> now"
    using assms by (auto simp: window_ok_def list_all_iff)
  have srt: "sorted ?kept"
    using assms(1) by (simp add: window_ok_def sorted_wrt_filter)
  have srt2: "sorted (?kept @ [now])"
    using srt le_now by (auto simp: sorted_append)
  have "int (length (request_times rl)) \<le> requests_per_minute rl"
    using assms(1) by (simp add: window_ok_def)
  moreover have "int (length ?kept) \<le> int (length (request_times rl))"
    by simp
  ultimately have cap: "int (length ?kept) \<le> requests_per_minute rl"
    by (rule order_trans [rotated])
  show ?thesis
    using srt srt2 le_now cap
    by (auto simp: is_rate_limited_def window_ok_def Let_def list_all_iff)
qed

lemma is_rate_limited_capacity:
  "requests_per_minute (snd (is_rate_limited now rl)) = requests_per_minute rl"
  by (simp add: is_rate_limited_def Let_def)

lemma snd_admit_calls_Cons:
  "snd (admit_calls (t # ts) rl) = snd (admit_calls ts (snd (is_rate_limited t rl)))"
  by (simp split: prod.splits)

lemma admit_calls_snoc:
  "snd (admit_calls (us @ [t]) rl) = snd (is_rate_limited t (snd (admit_calls us rl)))"
proof (induction us arbitrary: rl)
  case Nil
  show ?case by (simp split: prod.splits)
next
  case (Cons u us)
  have "snd (admit_calls ((u # us) @ [t]) rl) =
          snd (admit_calls (us @ [t]) (snd (is_rate_limited u rl)))"
    by (simp only: append_Cons snd_admit_calls_Cons)
  also have "\<dots> = snd (is_rate_limited t (snd (admit_calls us (snd (is_rate_limited u rl)))))"
    by (rule Cons.IH)
  also have "\<dots> = snd (is_rate_limited t (snd (admit_calls (u # us) rl)))"
    by (simp only: snd_admit_calls_Cons)
  finally show ?case .
qed

lemma admit_calls_window_ok:
  assumes "sorted us" and "0 \<le> rpm"
  shows "window_ok (if us = [] then t0 else last us) (snd (admit_calls us (RateLimiter_init rpm)))"
  using assms(1)
proof (induction us rule: rev_induct)
  case Nil
  show ?case using assms(2) by (simp add: window_ok_init)
next
  case (snoc t us)
  have s: "sorted us" and le: "\<forall>u\<in>set us. u \<le> t"
    using snoc.prems by (auto simp: sorted_append)
  have prev: "window_ok (if us = [] then t else last us) (snd (admit_calls us (RateLimiter_init rpm)))"
  proof (cases "us = []")
    case True
    then show ?thesis using assms(2) by (simp add: window_ok_init)
  next
    case False
    then show ?thesis using snoc.IH [OF s] by simp
  qed
  have "(if us = [] then t else last us) \<le> t"
    using le by auto
  from window_ok_step [OF prev this] show ?case
    by (simp add: admit_calls_snoc)
qed

text \<open>
  C8, as the code has it. A window is in order at an instant when it holds at most
  \<open>requests_per_minute\<close> instants, each of them within the 60 seconds up to that
  instant, in non-decreasing order (\<open>window_ok\<close>). If the window is in order at the
  instant of the previous call and the clock has not stepped back since, it is in
  order after the next call, whether that call is admitted or rejected, and the
  capacity is what it was. For a new limiter of non-negative capacity and calls at
  non-decreasing instants, the window is in order after every call.
\<close>

theorem window_invariant:
  "(window_ok prev rl \<and> prev \<le> now \<longrightarrow>
      window_ok now (snd (is_rate_limited now rl)) \<and>
      requests_per_minute (snd (is_rate_limited now rl)) = requests_per_minute rl)
   \<and> (sorted (us @ [now]) \<and> 0 \<le> rpm \<longrightarrow>
      window_ok now (snd (admit_calls (us @ [now]) (RateLimiter_init rpm))))"
proof (intro conjI impI)
  assume "window_ok prev rl \<and> prev \<le> now"
  then show "window_ok now (snd (is_rate_limited now rl))"
    using window_ok_step by blast
next
  show "requests_per_minute (snd (is_rate_limited now rl)) = requests_per_minute rl"
    by (rule is_rate_limited_capacity)
next
  assume "sorted (us @ [now]) \<and> 0 \<le> rpm"
  then have "window_ok (if us @ [now] = [] then now else last (us @ [now]))
               (snd (admit_calls (us @ [now]) (RateLimiter_init rpm)))"
    by (intro admit_calls_window_ok) simp_all
  then show "window_ok now (snd (admit_calls (us @ [now]) (RateLimiter_init rpm)))"
    by simp
qed

theorem window_invariant_witness:
  "window_ok 50 \<lparr>requests_per_minute = 2, request_times = [10, 50]\<rparr>
   \<and> window_ok 65 (snd (is_rate_limited 65 \<lparr>requests_per_minute = 2, request_times = [10, 50]\<rparr>))
   \<and> request_times (snd (is_rate_limited 65 \<lparr>requests_per_minute = 2, request_times = [10, 50]\<rparr>))
        = [10, 50]
   \<and> window_ok 75 (snd (is_rate_limited 75 \<lparr>requests_per_minute = 2, request_times = [10, 50]\<rparr>))
   \<and> request_times (snd (is_rate_limited 75 \<lparr>requests_per_minute = 2, request_times = [10, 50]\<rparr>))
        = [50, 75]
   \<and> window_ok 3 (snd (admit_calls [1, 2, 3] (RateLimiter_init 2)))
   \<and> request_times (snd (admit_calls [1, 2, 3] (RateLimiter_init 2))) = [1, 2]"
  using window_invariant [of 50 "\<lparr>requests_per_minute = 2, request_times = [10, 50]\<rparr>" 65 "[1, 2]" 2]
        window_invariant [of 50 "\<lparr>requests_per_minute = 2, request_times = [10, 50]\<rparr>" 75 "[1, 2]" 2]
        window_invariant [of 50 "\<lparr>requests_per_minute = 2, request_times = [10, 50]\<rparr>" 3 "[1, 2]" 2]
  by (simp add: window_ok_def is_rate_limited_def RateLimiter_init_def)


text \<open>
  C8 as stated fails, in two ways. The limiter records whatever \<^verbatim>\<open>time.time()\<close>
  returns: when the clock steps back from 100 to 50 between two calls on a new
  limiter, both calls are admitted and the window is \<open>[100, 50]\<close>, out of order and
  with an instant later than the call. And the constructor takes any capacity: with
  \<open>- 1\<close> every call is rejected, and the empty window holds more than the capacity.
\<close>

theorem window_needs_clock_and_capacity:
  "request_times (snd (admit_calls [100, 50] (RateLimiter_init 60))) = [100, 50]
   \<and> \<not> sorted (request_times (snd (admit_calls [100, 50] (RateLimiter_init 60))))
   \<and> \<not> window_ok 50 (snd (admit_calls [100, 50] (RateLimiter_init 60)))
   \<and> request_times (snd (is_rate_limited 100 (RateLimiter_init (- 1)))) = []
   \<and> \<not> window_ok 100 (snd (is_rate_limited 100 (RateLimiter_init (- 1))))"
  by (simp add: is_rate_limited_def RateLimiter_init_def window_ok_def)

section \<open>The processor: failures and unknown types\<close>

lemma run_task_Inl_state:
  "run_task e t s = Inl x \<Longrightarrow> run_task e t s' = Inl x"
  by (auto simp: run_task_def Let_def split: sum.splits if_splits)

lemma str_exn_nonempty: "str_exn x \<noteq> []"
  by (cases x) simp_all

lemma apply_step_total: "tasks (task_queue s) \<noteq> [] \<Longrightarrow> \<exists>s'. apply_step e s = Inr s'"
  by (auto simp: apply_step_def Let_def split: list.splits sum.splits)

lemma process_iteration_total: "\<exists>s'. process_iteration e s = Inr s'"
proof (cases "tasks (task_queue s) = []")
  case True
  then show ?thesis by (simp add: process_iteration_def)
next
  case False
  obtain limited rl where r: "is_rate_limited (time_time e) (rate_limiter s) = (limited, rl)"
    by (cases "is_rate_limited (time_time e) (rate_limiter s)")
  show ?thesis
  proof (cases limited)
    case True
    with r False show ?thesis by (simp add: process_iteration_def)
  next
    case nl: False
    have "tasks (task_queue (s\<lparr>rate_limiter := rl\<rparr>)) \<noteq> []" using False by simp
    from apply_step_total [OF this, of e] r False nl show ?thesis
      by (simp add: process_iteration_def)
  qed
qed

lemma process_task_queue_total: "\<exists>s'. process_task_queue es s = Inr s'"
proof (induction es arbitrary: s)
  case Nil
  show ?case by simp
next
  case (Cons e es)
  obtain s1 where "process_iteration e s = Inr s1"
    using process_iteration_total by blast
  with Cons.IH [of s1] show ?case by simp
qed

lemma apply_step_failure:
  assumes "tasks (task_queue s) = t # rest" and "run_task e t s = Inl x"
  shows "apply_step e s =
           Inr (s\<lparr>task_queue :=
                  \<lparr>tasks = rest,
                   failed_tasks = failed_tasks (task_queue s) @ [t\<lparr>error := Some (str_exn x)\<rparr>]\<rparr>\<rparr>)"
proof -
  have "run_task e t (s\<lparr>task_queue := (task_queue s)\<lparr>tasks := rest\<rparr>\<rparr>) = Inl x"
    using assms(2) by (rule run_task_Inl_state)
  with assms(1) show ?thesis by (simp add: apply_step_def)
qed

text \<open>
  C3, as the code has it. When the type of the head intent is neither
  \<^verbatim>\<open>create_document\<close> nor \<^verbatim>\<open>create_context\<close> (or is missing), one apply step takes the
  intent off the pending list and drops it: no error is attached, the failed list is
  what it was, and so are the documents, the contexts and the limiter.
\<close>

theorem apply_step_unknown_type:
  assumes "tasks (task_queue s) = t # rest"
      and "type t \<noteq> Some ''create_document''" and "type t \<noteq> Some ''create_context''"
  shows "apply_step e s = Inr (s\<lparr>task_queue := (task_queue s)\<lparr>tasks := rest\<rparr>\<rparr>)"
  using assms by (simp add: apply_step_def run_task_def)

theorem apply_step_unknown_type_witness:
  "apply_step (sample_env 0)
     (initial_state\<lparr>task_queue :=
        \<lparr>tasks = [\<lparr>type = None, data = Some [], context_id = None, error = None\<rparr>,
                  create_document_task []],
         failed_tasks = [validation_failure ''c'' ''x'']\<rparr>\<rparr>)
   = Inr (initial_state\<lparr>task_queue :=
        \<lparr>tasks = [create_document_task []],
         failed_tasks = [validation_failure ''c'' ''x'']\<rparr>\<rparr>)"
  using apply_step_unknown_type
          [of "initial_state\<lparr>task_queue :=
                 \<lparr>tasks = [\<lparr>type = None, data = Some [], context_id = None, error = None\<rparr>,
                           create_document_task []],
                  failed_tasks = [validation_failure ''c'' ''x'']\<rparr>\<rparr>"
              "\<lparr>type = None, data = Some [], context_id = None, error = None\<rparr>"
              "[create_document_task []]" "sample_env 0"]
  by simp

text \<open>
  C3 as stated fails: an intent of type \<^verbatim>\<open>update_context\<close> (the entry that
  \<^verbatim>\<open>update_context\<close> records, back in the pending list after a retry) leaves the
  pending list and does not reach the failed list.
\<close>

theorem unknown_type_not_failed:
  "apply_step (sample_env 0)
     (initial_state\<lparr>task_queue :=
        \<lparr>tasks = [validation_failure ''c'' ''x''], failed_tasks = []\<rparr>\<rparr>)
   = Inr (initial_state\<lparr>task_queue := \<lparr>tasks = [], failed_tasks = []\<rparr>\<rparr>)"
  by (simp add: apply_step_def run_task_def validation_failure_def initial_state_def)

text \<open>
  C6. Let the head intent \<open>t\<close> of the pending list raise the exception \<open>x\<close> while its
  model is built or stored. One apply step then returns normally: \<open>t\<close>, with \<open>str(x)\<close>
  (which is not empty) as its error, is appended to the failed list, the rest of the
  pending list stays, and the stores are what they were. If the limiter admits this
  pass and the next, the next pass applies the next intent \<open>t2\<close> exactly as
  \<open>run_task\<close> does on the state left by the failure. However many passes the loop
  makes, no exception leaves it.
\<close>

theorem failure_isolated:
  assumes head: "tasks (task_queue s) = t # rest" and raised: "run_task e t s = Inl x"
  shows "apply_step e s =
           Inr (s\<lparr>task_queue :=
                  \<lparr>tasks = rest,
                   failed_tasks = failed_tasks (task_queue s) @ [t\<lparr>error := Some (str_exn x)\<rparr>]\<rparr>\<rparr>)
       \<and> str_exn x \<noteq> []
       \<and> (is_rate_limited (time_time e) (rate_limiter s) = (False, rl1) \<and>
          is_rate_limited (time_time e2) rl1 = (False, rl2) \<and>
          rest = t2 # rest2 \<and>
          run_task e2 t2
            (s\<lparr>rate_limiter := rl2,
               task_queue :=
                \<lparr>tasks = rest2,
                 failed_tasks = failed_tasks (task_queue s) @ [t\<lparr>error := Some (str_exn x)\<rparr>]\<rparr>\<rparr>)
            = Inr s2
          \<longrightarrow> process_task_queue [e, e2] s = Inr s2)
       \<and> (\<exists>s'. process_task_queue es s = Inr s')"
proof (intro conjI impI)
  show "apply_step e s =
           Inr (s\<lparr>task_queue :=
                  \<lparr>tasks = rest,
                   failed_tasks = failed_tasks (task_queue s) @ [t\<lparr>error := Some (str_exn x)\<rparr>]\<rparr>\<rparr>)"
    using assms by (rule apply_step_failure)
next
  show "str_exn x \<noteq> []" by (rule str_exn_nonempty)
next
  show "\<exists>s'. process_task_queue es s = Inr s'" by (rule process_task_queue_total)
next
  assume a: "is_rate_limited (time_time e) (rate_limiter s) = (False, rl1) \<and>
          is_rate_limited (time_time e2) rl1 = (False, rl2) \<and>
          rest = t2 # rest2 \<and>
          run_task e2 t2
            (s\<lparr>rate_limiter := rl2,
               task_queue :=
                \<lparr>tasks = rest2,
                 failed_tasks = failed_tasks (task_queue s) @ [t\<lparr>error := Some (str_exn x)\<rparr>]\<rparr>\<rparr>)
            = Inr s2"
  let ?f = "failed_tasks (task_queue s) @ [t\<lparr>error := Some (str_exn x)\<rparr>]"
  have h1: "tasks (task_queue (s\<lparr>rate_limiter := rl1\<rparr>)) = t # rest" using head by simp
  have r1: "run_task e t (s\<lparr>rate_limiter := rl1\<rparr>) = Inl x"
    using raised by (rule run_task_Inl_state)
  have it1: "process_iteration e s =
      Inr (s\<lparr>rate_limiter := rl1, task_queue := \<lparr>tasks = rest, failed_tasks = ?f\<rparr>\<rparr>)"
    using a head apply_step_failure [OF h1 r1] by (simp add: process_iteration_def)
  have it2: "process_iteration e2
       (s\<lparr>rate_limiter := rl1, task_queue := \<lparr>tasks = rest, failed_tasks = ?f\<rparr>\<rparr>) = Inr s2"
    using a by (simp add: process_iteration_def apply_step_def)
  show "process_task_queue [e, e2] s = Inr s2"
    using it1 it2 by simp
qed

theorem failure_isolated_witness:
  "run_task (sample_env 0) (create_document_task [(''id'', PStr ''b'')])
     (initial_state\<lparr>task_queue :=
        \<lparr>tasks = [create_document_task [(''id'', PStr ''b'')],
                  create_document_task (Document_dict (sample_document ''a''))],
         failed_tasks = []\<rparr>\<rparr>)
     = Inl (ValidationError ''Document'')
   \<and> process_task_queue [sample_env 0, sample_env 1]
     (initial_state\<lparr>task_queue :=
        \<lparr>tasks = [create_document_task [(''id'', PStr ''b'')],
                  create_document_task (Document_dict (sample_document ''a''))],
         failed_tasks = []\<rparr>\<rparr>)
     = Inr (initial_state
         \<lparr>rate_limiter := \<lparr>requests_per_minute = 60, request_times = [0, 1]\<rparr>,
          task_queue :=
            \<lparr>tasks = [],
             failed_tasks = [(create_document_task [(''id'', PStr ''b'')])
                               \<lparr>error := Some ''validation error for Document''\<rparr>]\<rparr>,
          documents_db := [''a'' \<mapsto> sample_document ''a'']\<rparr>)"
proof -
  let ?bad = "create_document_task [(''id'', PStr ''b'')]"
  let ?good = "create_document_task (Document_dict (sample_document ''a''))"
  let ?s = "initial_state\<lparr>task_queue := \<lparr>tasks = [?bad, ?good], failed_tasks = []\<rparr>\<rparr>"
  have h1: "tasks (task_queue ?s) = ?bad # [?good]" by simp
  have h2: "run_task (sample_env 0) ?bad ?s = Inl (ValidationError ''Document'')"
    by (simp add: run_task_def create_document_task_def Document_new_def Document_init_def
          field_def)
  have good: "Document_new (sample_env 1) (Some (Document_dict (sample_document ''a'')))
                = Inr (sample_document ''a'')"
    by (simp add: Document_new_def Document_init_def field_def Document_dict_def
          sample_document_def)
  have r1: "is_rate_limited (time_time (sample_env 0)) (rate_limiter ?s) =
              (False, \<lparr>requests_per_minute = 60, request_times = [0]\<rparr>)"
    by (simp add: is_rate_limited_def initial_state_def RateLimiter_init_def sample_env_def)
  have r2: "is_rate_limited (time_time (sample_env 1))
              \<lparr>requests_per_minute = 60, request_times = [0]\<rparr> =
              (False, \<lparr>requests_per_minute = 60, request_times = [0, 1]\<rparr>)"
    by (simp add: is_rate_limited_def sample_env_def)
  show ?thesis
    using h2 good r1 r2
      failure_isolated [OF h1 h2, of "\<lparr>requests_per_minute = 60, request_times = [0]\<rparr>"
        "sample_env 1" "\<lparr>requests_per_minute = 60, request_times = [0, 1]\<rparr>" ?good "[]"
        "initial_state
         \<lparr>rate_limiter := \<lparr>requests_per_minute = 60, request_times = [0, 1]\<rparr>,
          task_queue :=
            \<lparr>tasks = [],
             failed_tasks = [?bad\<lparr>error := Some ''validation error for Document''\<rparr>]\<rparr>,
          documents_db := [''a'' \<mapsto> sample_document ''a'']\<rparr>" "[]"]
    by (simp add: run_task_def create_document_task_def sample_document_def initial_state_def)
qed


section \<open>The failed list: retry\<close>

text \<open>
  C4. Retry puts the failed intents, as they are (errors included) and in their
  order, behind the intents that were pending, and empties the failed list; the
  pending list grows by exactly the number of failed intents, and the stores and the
  limiter are untouched. With an empty failed list nothing changes at all.
\<close>

theorem retry_failed_tasks_moves:
  "tasks (task_queue (snd (retry_failed_tasks s))) =
       tasks (task_queue s) @ failed_tasks (task_queue s)
   \<and> failed_tasks (task_queue (snd (retry_failed_tasks s))) = []
   \<and> length (tasks (task_queue (snd (retry_failed_tasks s)))) =
       length (tasks (task_queue s)) + length (failed_tasks (task_queue s))
   \<and> documents_db (snd (retry_failed_tasks s)) = documents_db s
   \<and> contexts_db (snd (retry_failed_tasks s)) = contexts_db s
   \<and> rate_limiter (snd (retry_failed_tasks s)) = rate_limiter s
   \<and> (failed_tasks (task_queue s) = [] \<longrightarrow> retry_failed_tasks s = (No_failed_tasks, s))"
  by (simp add: retry_failed_tasks_def Let_def)

theorem retry_failed_tasks_moves_witness:
  "tasks (task_queue (snd (retry_failed_tasks
     (initial_state\<lparr>task_queue :=
        \<lparr>tasks = [create_document_task []],
         failed_tasks = [(create_document_task [])\<lparr>error := Some ''e1''\<rparr>,
                         validation_failure ''c'' ''x'']\<rparr>\<rparr>))))
     = [create_document_task [], (create_document_task [])\<lparr>error := Some ''e1''\<rparr>,
        validation_failure ''c'' ''x'']
   \<and> failed_tasks (task_queue (snd (retry_failed_tasks
     (initial_state\<lparr>task_queue :=
        \<lparr>tasks = [create_document_task []],
         failed_tasks = [(create_document_task [])\<lparr>error := Some ''e1''\<rparr>,
                         validation_failure ''c'' ''x'']\<rparr>\<rparr>)))) = []
   \<and> retry_failed_tasks initial_state = (No_failed_tasks, initial_state)"
  using retry_failed_tasks_moves
          [of "initial_state\<lparr>task_queue :=
                 \<lparr>tasks = [create_document_task []],
                  failed_tasks = [(create_document_task [])\<lparr>error := Some ''e1''\<rparr>,
                                  validation_failure ''c'' ''x'']\<rparr>\<rparr>"]
        retry_failed_tasks_moves [of initial_state]
  by (simp add: initial_state_def)

section \<open>The store: contexts\<close>

lemma render_documents_filter:
  "render_documents db ds acc =
     acc @ map (\<lambda>d. \<lparr>rendered_id = d, rendered_content = content (the (db d)),
                      rendered_metadata = metadata (the (db d))\<rparr>)
             (filter (\<lambda>d. db d \<noteq> None) ds)"
  by (induction ds arbitrary: acc) (auto split: option.splits)

text \<open>
  C9. Deleting a context that is in the store removes the entry under that key and
  nothing else: every other context, the documents, the pending and failed lists and
  the limiter are what they were.
\<close>

theorem delete_context_frame:
  assumes "contexts_db s cid \<noteq> None"
  shows "fst (delete_context cid s) = Inr ''Context deleted successfully''
       \<and> snd (delete_context cid s) = s\<lparr>contexts_db := (contexts_db s)(cid := None)\<rparr>
       \<and> contexts_db (snd (delete_context cid s)) cid = None
       \<and> (\<forall>k. k \<noteq> cid \<longrightarrow> contexts_db (snd (delete_context cid s)) k = contexts_db s k)
       \<and> documents_db (snd (delete_context cid s)) = documents_db s
       \<and> task_queue (snd (delete_context cid s)) = task_queue s
       \<and> rate_limiter (snd (delete_context cid s)) = rate_limiter s"
  using assms by (simp add: delete_context_def)

theorem delete_context_frame_witness:
  "contexts_db (initial_state\<lparr>documents_db := [''d'' \<mapsto> sample_document ''d''],
        contexts_db := [''c'' \<mapsto> sample_context ''c'' [''d''],
                        ''k'' \<mapsto> sample_context ''k'' [''d'']]\<rparr>) ''c'' \<noteq> None
   \<and> snd (delete_context ''c''
       (initial_state\<lparr>documents_db := [''d'' \<mapsto> sample_document ''d''],
        contexts_db := [''c'' \<mapsto> sample_context ''c'' [''d''],
                        ''k'' \<mapsto> sample_context ''k'' [''d'']]\<rparr>))
     = initial_state\<lparr>documents_db := [''d'' \<mapsto> sample_document ''d''],
        contexts_db := [''k'' \<mapsto> sample_context ''k'' [''d'']]\<rparr>"
  using delete_context_frame
          [of "initial_state\<lparr>documents_db := [''d'' \<mapsto> sample_document ''d''],
                 contexts_db := [''c'' \<mapsto> sample_context ''c'' [''d''],
                                 ''k'' \<mapsto> sample_context ''k'' [''d'']]\<rparr>" "''c''"]
  by (simp add: fun_upd_twist)

text \<open>
  C7. The content of a context is refused with 404 exactly when nothing is stored
  under the requested key. Otherwise the answer carries the requested key, the name
  of the context, and one entry (key, content, metadata) for each reference of the
  context that resolves in the document store, in the order of the references;
  references that do not resolve are left out. The globals are what they were.
\<close>

theorem get_context_content_join:
  "(fst (get_context_content cid s) = Inl (HTTPException 404 ''Context not found'')
      \<longleftrightarrow> contexts_db s cid = None)
   \<and> (contexts_db s cid = Some c \<longrightarrow>
        fst (get_context_content cid s) =
          Inr \<lparr>content_context_id = cid, content_name = name c,
               content_documents =
                 map (\<lambda>d. \<lparr>rendered_id = d, rendered_content = content (the (documents_db s d)),
                            rendered_metadata = metadata (the (documents_db s d))\<rparr>)
                     (filter (\<lambda>d. documents_db s d \<noteq> None) (documents c))\<rparr>)
   \<and> (\<forall>e. fst (get_context_content cid s) = Inl e \<longrightarrow> contexts_db s cid = None)
   \<and> snd (get_context_content cid s) = s"
  by (simp add: get_context_content_def render_documents_filter split: option.splits)

theorem get_context_content_join_witness:
  "fst (get_context_content ''c''
     (initial_state\<lparr>documents_db := [''d'' \<mapsto> sample_document ''d''],
        contexts_db := [''c'' \<mapsto> sample_context ''c'' [''x'', ''d'', ''y'', ''d'']]\<rparr>))
   = Inr \<lparr>content_context_id = ''c'', content_name = ''n'',
          content_documents =
            [\<lparr>rendered_id = ''d'', rendered_content = ''text'', rendered_metadata = []\<rparr>,
             \<lparr>rendered_id = ''d'', rendered_content = ''text'', rendered_metadata = []\<rparr>]\<rparr>
   \<and> fst (get_context_content ''z'' initial_state) = Inl (HTTPException 404 ''Context not found'')"
  using get_context_content_join
          [of "''c''" "initial_state\<lparr>documents_db := [''d'' \<mapsto> sample_document ''d''],
                 contexts_db := [''c'' \<mapsto> sample_context ''c'' [''x'', ''d'', ''y'', ''d'']]\<rparr>"
              "sample_context ''c'' [''x'', ''d'', ''y'', ''d'']"]
        get_context_content_join [of "''z''" initial_state]
  by (simp add: initial_state_def sample_context_def sample_document_def)

text \<open>
  C10. An update of a context that is in the store commits the submitted record,
  with its filtered references and the new \<^verbatim>\<open>updated_at\<close>, under the key of the path
  and under no other key; the \<^verbatim>\<open>id\<close> field of the committed record is the one of the
  payload, whatever the key.
\<close>

theorem update_context_key:
  assumes "contexts_db s cid \<noteq> None"
  shows "fst (update_context cid u now s) =
           Inr (u\<lparr>documents := fst (validate_documents (documents_db s) cid 0 (documents u)
                                       (failed_tasks (task_queue s))),
                  updated_at := now\<rparr>)
       \<and> contexts_db (snd (update_context cid u now s)) =
           (contexts_db s)(cid \<mapsto> u\<lparr>documents := fst (validate_documents (documents_db s) cid 0
                                          (documents u) (failed_tasks (task_queue s))),
                                     updated_at := now\<rparr>)
       \<and> id_ctx (the (contexts_db (snd (update_context cid u now s)) cid)) = id_ctx u
       \<and> (\<forall>k. k \<noteq> cid \<longrightarrow> contexts_db (snd (update_context cid u now s)) k = contexts_db s k)"
  using assms by (simp add: update_context_def Let_def split: prod.splits)

theorem update_context_key_witness:
  "fst (update_context ''c'' (sample_context ''p'' []) ''t9''
          (initial_state\<lparr>contexts_db := [''c'' \<mapsto> sample_context ''c'' []]\<rparr>))
     = Inr ((sample_context ''p'' [])\<lparr>updated_at := ''t9''\<rparr>)
   \<and> id_ctx (the (contexts_db (snd (update_context ''c'' (sample_context ''p'' []) ''t9''
          (initial_state\<lparr>contexts_db := [''c'' \<mapsto> sample_context ''c'' []]\<rparr>))) ''c'')) = ''p''
   \<and> contexts_db (snd (update_context ''c'' (sample_context ''p'' []) ''t9''
          (initial_state\<lparr>contexts_db := [''c'' \<mapsto> sample_context ''c'' []]\<rparr>))) ''p'' = None"
  using update_context_key
          [of "initial_state\<lparr>contexts_db := [''c'' \<mapsto> sample_context ''c'' []]\<rparr>" "''c''"
              "sample_context ''p'' []" "''t9''"]
  by (simp add: initial_state_def sample_context_def validate_documents.simps)

section \<open>The store: references to documents\<close>

lemma validate_documents_all_resolve:
  "\<forall>d\<in>set docs. db d \<noteq> None \<Longrightarrow> validate_documents db cid i docs failed = (docs, failed)"
proof (induction db cid i docs failed rule: validate_documents.induct)
  case (1 db cid i docs failed)
  show ?case
  proof (cases "i < length docs")
    case True
    then have "docs ! i \<in> set docs" by simp
    then obtain y where y: "db (docs ! i) = Some y" using "1.prems" by auto
    then have "validate_documents db cid (Suc i) docs failed = (docs, failed)"
      using True "1.IH"(2) "1.prems" by simp
    with True y show ?thesis
      by (subst validate_documents.simps) (simp add: Let_def)
  next
    case False
    then show ?thesis by (subst validate_documents.simps) simp
  qed
qed

lemma delete_document_effect:
  assumes "documents_db s d \<noteq> None"
  shows "documents_db (snd (delete_document d now s)) = (documents_db s)(d := None)"
    and "contexts_db s k = Some c \<Longrightarrow>
           contexts_db (snd (delete_document d now s)) k =
             Some (if d \<in> set (documents c)
                   then c\<lparr>documents := remove1 d (documents c), updated_at := now k\<rparr> else c)"
    and "contexts_db s k = None \<Longrightarrow> contexts_db (snd (delete_document d now s)) k = None"
  using assms by (auto simp add: delete_document_def remove_from_context_def)

lemma delete_document_single_reference:
  assumes "documents_db s d \<noteq> None" and "contexts_db s k = Some c"
      and "count_list (documents c) d \<le> 1"
  shows "d \<notin> set (documents (the (contexts_db (snd (delete_document d now s)) k)))"
proof -
  have "d \<notin> set (remove1 d xs)" if "count_list xs d \<le> 1" for xs
    using that
  proof (induction xs)
    case Nil
    show ?case by simp
  next
    case (Cons x xs)
    show ?case
    proof (cases "x = d")
      case True
      with Cons.prems have "count_list xs d = 0" by simp
      then have "d \<notin> set xs" by (simp add: count_list_0_iff)
      with True show ?thesis by simp
    next
      case False
      with Cons show ?thesis by simp
    qed
  qed
  from this [OF assms(3)] assms(1,2) show ?thesis
    by (simp add: delete_document_effect)
qed

text \<open>
  C1, on a context that references the document twice. \<^verbatim>\<open>list.remove\<close> takes out
  one occurrence: the document is gone from the store, the context is stamped as
  updated, and it still references the deleted document.
\<close>

theorem delete_document_keeps_duplicate:
  "fst (delete_document ''d'' (\<lambda>k. ''t9'')
          (initial_state\<lparr>documents_db := [''d'' \<mapsto> sample_document ''d''],
                          contexts_db := [''c'' \<mapsto> sample_context ''c'' [''d'', ''d'']]\<rparr>))
     = Inr ''Document deleted successfully''
   \<and> documents_db (snd (delete_document ''d'' (\<lambda>k. ''t9'')
          (initial_state\<lparr>documents_db := [''d'' \<mapsto> sample_document ''d''],
                          contexts_db := [''c'' \<mapsto> sample_context ''c'' [''d'', ''d'']]\<rparr>))) ''d''
     = None
   \<and> contexts_db (snd (delete_document ''d'' (\<lambda>k. ''t9'')
          (initial_state\<lparr>documents_db := [''d'' \<mapsto> sample_document ''d''],
                          contexts_db := [''c'' \<mapsto> sample_context ''c'' [''d'', ''d'']]\<rparr>))) ''c''
     = Some ((sample_context ''c'' [''d''])\<lparr>updated_at := ''t9''\<rparr>)"
  by (simp add: delete_document_def remove_from_context_def initial_state_def
        sample_context_def sample_document_def)

text \<open>
  C2, on a submitted list with two unresolvable ids next to each other. Removing
  \<^verbatim>\<open>x\<close> moves \<^verbatim>\<open>y\<close> to the position the loop has just left, so \<^verbatim>\<open>y\<close> is never
  looked at: it is committed, and no failure is recorded for it.
\<close>

theorem update_context_keeps_unresolved:
  "documents_db (initial_state\<lparr>documents_db := [''a'' \<mapsto> sample_document ''a''],
                     contexts_db := [''c'' \<mapsto> sample_context ''c'' []]\<rparr>) ''y'' = None
   \<and> update_context ''c'' (sample_context ''c'' [''x'', ''y'', ''a'']) ''t9''
     (initial_state\<lparr>documents_db := [''a'' \<mapsto> sample_document ''a''],
                     contexts_db := [''c'' \<mapsto> sample_context ''c'' []]\<rparr>)
   = (Inr ((sample_context ''c'' [''y'', ''a''])\<lparr>updated_at := ''t9''\<rparr>),
      initial_state\<lparr>documents_db := [''a'' \<mapsto> sample_document ''a''],
                     contexts_db := [''c'' \<mapsto> (sample_context ''c'' [''y'', ''a''])\<lparr>updated_at := ''t9''\<rparr>],
                     task_queue := \<lparr>tasks = [], failed_tasks = [validation_failure ''c'' ''x'']\<rparr>\<rparr>)"
  by (simp add: update_context_def validate_documents.simps initial_state_def
        sample_context_def sample_document_def Let_def)


end
